theory Spec2Isabelle
  imports Main
begin

section \<open>Python strings and values\<close>

text \<open>
  The module \<open>svtools/vcf/variant.py\<close> works on Python strings (here \<open>string\<close>, a list
  of bytes), on the built-in \<open>str.split\<close>, \<open>str.join\<close>, \<open>int\<close> and \<open>str\<close>, and on
  dictionaries (here maps). This section models the built-ins.
\<close>

text \<open>\<open>s.split(c)\<close> for a one-character separator: never the empty list.\<close>

fun py_split :: "char \<Rightarrow> string \<Rightarrow> string list" where
  "py_split c [] = [[]]"
| "py_split c (x # xs) =
     (if x = c then [] # py_split c xs
      else (case py_split c xs of
              [] \<Rightarrow> [[x]]
            | y # ys \<Rightarrow> (x # y) # ys))"

text \<open>\<open>sep.join(xs)\<close>.\<close>

fun py_join :: "string \<Rightarrow> string list \<Rightarrow> string" where
  "py_join sep [] = []"
| "py_join sep [x] = x"
| "py_join sep (x # y # ys) = x @ sep @ py_join sep (y # ys)"

abbreviation tab :: char where
  "tab \<equiv> CHR 0x09"

text \<open>
  The values an INFO entry holds: the constructor stores strings and \<open>True\<close>;
  \<open>set_info\<close> stores whatever its caller passes.
\<close>

datatype pyval = PStr string | PBool bool | PInt int | PNone

text \<open>Truth value of a Python object (\<open>if x:\<close>).\<close>

fun truthy :: "pyval \<Rightarrow> bool" where
  "truthy (PStr s) = (s \<noteq> [])"
| "truthy (PBool b) = b"
| "truthy (PInt i) = (i \<noteq> 0)"
| "truthy PNone = False"

definition digit_char :: "nat \<Rightarrow> char" where
  "digit_char d = ''0123456789'' ! (d mod 10)"

fun str_nat :: "nat \<Rightarrow> string" where
  "str_nat n = (if n < 10 then [digit_char n] else str_nat (n div 10) @ [digit_char (n mod 10)])"

declare str_nat.simps [simp del]

text \<open>\<open>str(i)\<close> for an integer.\<close>

definition str_int :: "int \<Rightarrow> string" where
  "str_int i = (if i < 0 then CHR ''-'' # str_nat (nat (- i)) else str_nat (nat i))"

text \<open>\<open>str(x)\<close>, which is also what \<open>'%s' % x\<close> inserts.\<close>

fun py_str :: "pyval \<Rightarrow> string" where
  "py_str (PStr s) = s"
| "py_str (PBool b) = (if b then ''True'' else ''False'')"
| "py_str (PInt i) = str_int i"
| "py_str PNone = ''None''"

text \<open>
  \<open>int(s)\<close> for a string, following the grammar of Python 3 on ASCII input: white space
  around the literal is dropped, one sign may come first, and the digits may be separated
  by single underscores. \<open>None\<close> stands for the \<open>ValueError\<close> that \<open>int\<close> raises.
\<close>

definition is_space :: "char \<Rightarrow> bool" where
  "is_space c = (c \<in> set [CHR '' '', CHR 0x09, CHR 0x0A, CHR 0x0B, CHR 0x0C, CHR 0x0D])"

definition strip :: "string \<Rightarrow> string" where
  "strip s = rev (dropWhile is_space (rev (dropWhile is_space s)))"

definition digit_val :: "char \<Rightarrow> nat option" where
  "digit_val c = map_of
     [(CHR ''0'', 0), (CHR ''1'', 1), (CHR ''2'', 2), (CHR ''3'', 3), (CHR ''4'', 4),
      (CHR ''5'', 5), (CHR ''6'', 6), (CHR ''7'', 7), (CHR ''8'', 8), (CHR ''9'', 9)] c"

fun parse_digits :: "nat \<Rightarrow> string \<Rightarrow> nat option" where
  "parse_digits acc [] = Some acc"
| "parse_digits acc [c] =
     (case digit_val c of None \<Rightarrow> None | Some d \<Rightarrow> Some (10 * acc + d))"
| "parse_digits acc (c # d # ds) =
     (if c = CHR ''_'' then
        (case digit_val d of None \<Rightarrow> None | Some v \<Rightarrow> parse_digits (10 * acc + v) ds)
      else
        (case digit_val c of None \<Rightarrow> None | Some v \<Rightarrow> parse_digits (10 * acc + v) (d # ds)))"

definition parse_number :: "string \<Rightarrow> nat option" where
  "parse_number s =
     (case s of
        [] \<Rightarrow> None
      | c # cs \<Rightarrow> (case digit_val c of None \<Rightarrow> None | Some d \<Rightarrow> parse_digits d cs))"

definition py_int :: "string \<Rightarrow> int option" where
  "py_int s =
     (case strip s of
        [] \<Rightarrow> None
      | c # cs \<Rightarrow>
          if c = CHR ''-'' then map_option (\<lambda>n. - int n) (parse_number cs)
          else if c = CHR ''+'' then map_option int (parse_number cs)
          else map_option int (parse_number (c # cs)))"

section \<open>The header context and the genotype of one sample\<close>

text \<open>
  The header (\<open>vcf\<close>) is an argument of the constructor: the ordered sample names, the
  declared INFO fields (\<open>id\<close> and \<open>type\<close>) and the declared FORMAT fields (\<open>id\<close>).
\<close>

record Info =
  id_i :: string
  type_i :: string

record Format =
  id_f :: string

record Vcf =
  vcf_sample_list :: "string list"
  vcf_info_list :: "Info list"
  vcf_format_list :: "Format list"

text \<open>
  Modelled from the spec: the class \<open>Genotype\<close> of \<open>svtools.vcf.genotype\<close>, which
  \<open>variant.py\<close> imports. A genotype is constructed from its call-field string, and
  \<open>set_formats\<close>, given the ordered tag list and the ordered raw sub-field values,
  populates its sub-fields by pairing them. How a genotype prints its own column
  (\<open>Genotype.get_gt_string\<close>) is left open: the serializers below take it as the
  argument \<open>render\<close>.
\<close>

record Genotype =
  call :: string
  sub_fields :: "(string \<times> string) list"

definition Genotype_init :: "string \<Rightarrow> Genotype" where
  "Genotype_init gt = \<lparr>call = gt, sub_fields = []\<rparr>"

definition set_formats :: "string list \<Rightarrow> string list \<Rightarrow> Genotype \<Rightarrow> Genotype" where
  "set_formats tags vals g = g\<lparr>sub_fields := zip tags vals\<rparr>"

section \<open>The class Variant\<close>

text \<open>
  What a call can raise. \<open>exit(1)\<close> after a message on standard error is one constructor
  per message: too few columns (constructor), an invalid INFO field (\<open>set_info\<close>), an
  invalid sample name (\<open>genotype\<close>), no genotype string (\<open>get_var_string\<close>).
\<close>

datatype error =
    IndexError
  | ValueError
  | KeyError
  | AttributeError
  | ExitTooFewColumns
  | ExitInvalidInfoField string
  | ExitInvalidSampleName string
  | ExitNoGenotypeString

record Variant =
  chrom :: string
  pos :: int
  var_id :: string
  ref :: string
  alt :: string
  qual :: string
  filter_v :: string
  sample_list :: "string list"
  info_list :: "Info list"
  info :: "string \<rightharpoonup> pyval"
  format_list :: "Format list"
  format_set :: "string set"
  active_formats :: "string set"
  active_format_list :: "string list"
  gts :: "(string \<rightharpoonup> Genotype) option"
  format_string :: "string option"
  gts_string :: "string option"

text \<open>The loop of \<open>update_active_format_list\<close> (and of \<open>get_format_string\<close>).\<close>

fun format_loop :: "string set \<Rightarrow> Format list \<Rightarrow> string list \<Rightarrow> string list" where
  "format_loop active [] new_list = new_list"
| "format_loop active (format # rest) new_list =
     format_loop active rest
       (if id_f format \<in> active then new_list @ [id_f format] else new_list)"

definition update_active_format_list :: "Variant \<Rightarrow> Variant" where
  "update_active_format_list v =
     v\<lparr>active_format_list := format_loop (active_formats v) (format_list v) []\<rparr>"

text \<open>
  The loop of the constructor over the split INFO parts: a part without \<open>=\<close> gets
  \<open>True\<close> appended, and the first two elements are stored as key and value.
\<close>

fun info_loop :: "string list list \<Rightarrow> (string \<rightharpoonup> pyval) \<Rightarrow> error + (string \<rightharpoonup> pyval)" where
  "info_loop [] m = Inr m"
| "info_loop (i # rest) m =
     (case i of
        [] \<Rightarrow> Inl IndexError
      | [k] \<Rightarrow> info_loop rest (m(k \<mapsto> PBool True))
      | k # x # _ \<Rightarrow> info_loop rest (m(k \<mapsto> PStr x)))"

text \<open>
  The constructor. The columns are read in the order of the source: columns 0 to 6
  (with \<open>int\<close> on column 1) before the test on the number of columns, column 8 after it.
\<close>

definition Variant_init :: "string list \<Rightarrow> Vcf \<Rightarrow> error + Variant" where
  "Variant_init var_list vcf =
     (if length var_list < 2 then Inl IndexError
      else case py_int (var_list ! 1) of
        None \<Rightarrow> Inl ValueError
      | Some p \<Rightarrow>
          if length var_list < 7 then Inl IndexError
          else if length var_list < 8 then Inl ExitTooFewColumns
          else if length var_list < 9 then Inl IndexError
          else
            (let v = \<lparr>chrom = var_list ! 0, pos = p, var_id = var_list ! 2,
                      ref = var_list ! 3, alt = var_list ! 4, qual = var_list ! 5,
                      filter_v = var_list ! 6,
                      sample_list = vcf_sample_list vcf,
                      info_list = vcf_info_list vcf,
                      info = Map.empty,
                      format_list = vcf_format_list vcf,
                      format_set = set (map id_f (vcf_format_list vcf)),
                      active_formats = set (py_split (CHR '':'') (var_list ! 8)),
                      active_format_list = [],
                      gts = None,
                      format_string = Some (var_list ! 8),
                      gts_string = None\<rparr>;
                 v = update_active_format_list v;
                 v = v\<lparr>gts_string := Some (py_join [tab] (drop 9 var_list))\<rparr>
             in case info_loop (map (py_split (CHR ''='')) (py_split (CHR '';'') (var_list ! 7)))
                       Map.empty of
                  Inl e \<Rightarrow> Inl e
                | Inr m \<Rightarrow> Inr (v\<lparr>info := m\<rparr>)))"

text \<open>
  \<open>_parse_genotypes\<close>: the body of the \<open>try\<close> for one genotype column, and the loop over
  \<open>enumerate(genotype_array)\<close>. The sample name is read outside the \<open>try\<close>.
\<close>

definition parse_sample :: "string list \<Rightarrow> string \<Rightarrow> error + Genotype" where
  "parse_sample format_field_tags sample_string =
     (let sample_field = py_split (CHR '':'') sample_string in
      case sample_field of
        [] \<Rightarrow> Inl IndexError
      | c # _ \<Rightarrow> Inr (set_formats format_field_tags sample_field (Genotype_init c)))"

fun parse_loop ::
  "string list \<Rightarrow> string list \<Rightarrow> nat \<Rightarrow> string list \<Rightarrow> (string \<rightharpoonup> Genotype)
     \<Rightarrow> error + (string \<rightharpoonup> Genotype)" where
  "parse_loop samples tags index [] g = Inr g"
| "parse_loop samples tags index (sample_string # rest) g =
     (if index < length samples then
        (let sample_name = samples ! index in
         case parse_sample tags sample_string of
           Inr x \<Rightarrow> parse_loop samples tags (Suc index) rest (g(sample_name \<mapsto> x))
         | Inl IndexError \<Rightarrow>
             parse_loop samples tags (Suc index) rest (g(sample_name \<mapsto> Genotype_init ''./.''))
         | Inl e \<Rightarrow> Inl e)
      else Inl IndexError)"

definition parse_genotypes ::
  "Variant \<Rightarrow> string list \<Rightarrow> string list \<Rightarrow> error + (string \<rightharpoonup> Genotype)" where
  "parse_genotypes v format_field_tags genotype_array =
     parse_loop (sample_list v) format_field_tags 0 genotype_array Map.empty"

text \<open>
  \<open>set_info\<close>, \<open>get_info\<close>. A call that changes the record returns the record after it,
  also when it fails.
\<close>

definition set_info :: "string \<Rightarrow> pyval \<Rightarrow> Variant \<Rightarrow> (error + unit) \<times> Variant" where
  "set_info field val v =
     (if field \<in> set (map id_i (info_list v))
      then (Inr (), v\<lparr>info := (info v)(field \<mapsto> val)\<rparr>)
      else (Inl (ExitInvalidInfoField field), v))"

definition get_info :: "string \<Rightarrow> Variant \<Rightarrow> error + pyval" where
  "get_info field v = (case info v field of None \<Rightarrow> Inl KeyError | Some x \<Rightarrow> Inr x)"

text \<open>\<open>get_info_string\<close>: the loop over the header's INFO fields, then the join.\<close>

fun info_string_loop :: "(string \<rightharpoonup> pyval) \<Rightarrow> Info list \<Rightarrow> string list \<Rightarrow> string list" where
  "info_string_loop m [] i_list = i_list"
| "info_string_loop m (info_field # rest) i_list =
     info_string_loop m rest
       (case m (id_i info_field) of
          None \<Rightarrow> i_list
        | Some x \<Rightarrow>
            if type_i info_field = ''Flag'' then
              (if truthy x then i_list @ [id_i info_field] else i_list)
            else i_list @ [id_i info_field @ ''='' @ py_str x])"

definition get_info_string :: "Variant \<Rightarrow> string" where
  "get_info_string v = py_join '';'' (info_string_loop (info v) (info_list v) [])"

text \<open>\<open>get_format_string\<close>.\<close>

definition get_format_string :: "Variant \<Rightarrow> string" where
  "get_format_string v =
     (case format_string v of
        Some s \<Rightarrow> s
      | None \<Rightarrow> py_join '':'' (format_loop (active_formats v) (format_list v) []))"

text \<open>
  \<open>genotype\<close>: the first call parses the cached strings, stores the mapping and sets
  the cached FORMAT string to \<open>None\<close>; a name that is not a key ends in \<open>sys.exit(1)\<close>.
  An exception of \<open>_parse_genotypes\<close> leaves the record as it was.
\<close>

definition genotype :: "string \<Rightarrow> Variant \<Rightarrow> (error + Genotype) \<times> Variant" where
  "genotype sample_name v =
     (case (case gts v of
              Some g \<Rightarrow> Inr (g, v)
            | None \<Rightarrow>
                (case format_string v of
                   None \<Rightarrow> Inl AttributeError
                 | Some fs \<Rightarrow>
                     (case gts_string v of
                        None \<Rightarrow> Inl AttributeError
                      | Some gs \<Rightarrow>
                          (case parse_genotypes v (py_split (CHR '':'') fs) (py_split tab gs) of
                             Inl e \<Rightarrow> Inl e
                           | Inr g \<Rightarrow> Inr (g, v\<lparr>gts := Some g, format_string := None\<rparr>)))))
      of
        Inl e \<Rightarrow> (Inl e, v)
      | Inr (g, v') \<Rightarrow>
          (case g sample_name of
             None \<Rightarrow> (Inl (ExitInvalidSampleName sample_name), v')
           | Some x \<Rightarrow> (Inr x, v')))"

text \<open>
  \<open>get_gt_string\<close>. \<open>if self.gts\<close> holds for a dictionary with at least one key. The
  generator calls \<open>genotype\<close> for each sample of the header in turn.
\<close>

fun gt_loop ::
  "(Genotype \<Rightarrow> string) \<Rightarrow> string list \<Rightarrow> Variant \<Rightarrow> (error + string list) \<times> Variant" where
  "gt_loop render [] v = (Inr [], v)"
| "gt_loop render (s # rest) v =
     (case genotype s v of
        (Inl e, v') \<Rightarrow> (Inl e, v')
      | (Inr x, v') \<Rightarrow>
          (case gt_loop render rest v' of
             (Inl e, v'') \<Rightarrow> (Inl e, v'')
           | (Inr xs, v'') \<Rightarrow> (Inr (render x # xs), v'')))"

definition gts_true :: "Variant \<Rightarrow> bool" where
  "gts_true v = (case gts v of None \<Rightarrow> False | Some g \<Rightarrow> g \<noteq> Map.empty)"

definition get_gt_string ::
  "(Genotype \<Rightarrow> string) \<Rightarrow> bool \<Rightarrow> Variant \<Rightarrow> (error + string option) \<times> Variant" where
  "get_gt_string render use_cached_gt_string v =
     (if gts_true v then
        (if use_cached_gt_string then (Inr (gts_string v), v)
         else
           (case gt_loop render (sample_list v) v of
              (Inl e, v') \<Rightarrow> (Inl e, v')
            | (Inr xs, v') \<Rightarrow> (Inr (Some (py_join [tab] xs)), v')))
      else (Inr (gts_string v), v))"

text \<open>\<open>get_var_string\<close>.\<close>

definition get_var_string ::
  "(Genotype \<Rightarrow> string) \<Rightarrow> bool \<Rightarrow> Variant \<Rightarrow> (error + string) \<times> Variant" where
  "get_var_string render use_cached_gt_string v =
     (let fields' = [chrom v, str_int (pos v), var_id v, ref v, alt v, qual v, filter_v v,
                    get_info_string v]
      in if \<not> (active_formats v = {} \<and> format_string v = None) then
           (case get_gt_string render use_cached_gt_string v of
              (Inl e, v') \<Rightarrow> (Inl e, v')
            | (Inr None, v') \<Rightarrow> (Inl ExitNoGenotypeString, v')
            | (Inr (Some gts_string'), v') \<Rightarrow>
                (Inr (py_join [tab] (fields' @ [get_format_string v', gts_string'])), v'))
         else (Inr (py_join [tab] fields'), v))"

section \<open>What the specification says, and a running example\<close>

text \<open>
  The INFO string in the words of the specification: the declared INFO fields that are
  keys of the mapping, in declared order, without the Flag fields whose value is false;
  a Flag field as its bare id, any other field as \<open>id=value\<close>; joined by \<open>;\<close>.
\<close>

definition info_text :: "(string \<rightharpoonup> pyval) \<Rightarrow> Info \<Rightarrow> string" where
  "info_text m f =
     (if type_i f = ''Flag'' then id_i f else id_i f @ ''='' @ py_str (the (m (id_i f))))"

definition info_emitted :: "(string \<rightharpoonup> pyval) \<Rightarrow> Info \<Rightarrow> bool" where
  "info_emitted m f =
     (id_i f \<in> dom m \<and> (if type_i f = ''Flag'' then truthy (the (m (id_i f))) else True))"

definition info_string_spec :: "(string \<rightharpoonup> pyval) \<Rightarrow> Info list \<Rightarrow> string" where
  "info_string_spec m declared =
     py_join '';'' (map (info_text m) (filter (info_emitted m) declared))"

text \<open>
  The example of the specification: samples \<open>S1\<close>, \<open>S2\<close>; INFO \<open>AF\<close> (Float) and \<open>DB\<close>
  (Flag); FORMAT \<open>GT\<close>, \<open>DP\<close>; and the record the constructor builds from the line.
\<close>

definition ex_vcf :: Vcf where
  "ex_vcf =
     \<lparr>vcf_sample_list = [''S1'', ''S2''],
      vcf_info_list = [\<lparr>id_i = ''AF'', type_i = ''Float''\<rparr>, \<lparr>id_i = ''DB'', type_i = ''Flag''\<rparr>],
      vcf_format_list = [\<lparr>id_f = ''GT''\<rparr>, \<lparr>id_f = ''DP''\<rparr>]\<rparr>"

definition ex_line :: "string list" where
  "ex_line = [''chr1'', ''100'', ''rs1'', ''A'', ''G'', ''50'', ''PASS'', ''AF=0.5;DB'',
              ''GT:DP'', ''0/1:30'', ''0/0:25'']"

definition ex_variant :: Variant where
  "ex_variant =
     \<lparr>chrom = ''chr1'', pos = 100, var_id = ''rs1'', ref = ''A'', alt = ''G'', qual = ''50'',
      filter_v = ''PASS'', sample_list = [''S1'', ''S2''],
      info_list = [\<lparr>id_i = ''AF'', type_i = ''Float''\<rparr>, \<lparr>id_i = ''DB'', type_i = ''Flag''\<rparr>],
      info = [''AF'' \<mapsto> PStr ''0.5'', ''DB'' \<mapsto> PBool True],
      format_list = [\<lparr>id_f = ''GT''\<rparr>, \<lparr>id_f = ''DP''\<rparr>],
      format_set = {''GT'', ''DP''}, active_formats = {''GT'', ''DP''},
      active_format_list = [''GT'', ''DP''], gts = None,
      format_string = Some ''GT:DP'',
      gts_string = Some (''0/1:30'' @ [tab] @ ''0/0:25'')\<rparr>"

text \<open>Shorter lines: eight columns, with and without a numeric position, and ten columns.\<close>

definition ex_line8 :: "string list" where
  "ex_line8 = [''chr1'', ''100'', ''rs1'', ''A'', ''G'', ''50'', ''PASS'', ''AF=0.5;DB'']"

definition ex_line8_x :: "string list" where
  "ex_line8_x = [''chr1'', ''x'', ''rs1'', ''A'', ''G'', ''50'', ''PASS'', ''AF=0.5;DB'']"

definition ex_line10 :: "string list" where
  "ex_line10 = [''chr1'', ''100'', ''rs1'', ''A'', ''G'', ''50'', ''PASS'', ''AF=0.5;DB'',
              ''GT:DP'', ''0/1:30'']"

text \<open>
  The example with the FORMAT column \<open>GT:XX\<close>, where the header does not declare \<open>XX\<close>,
  and genotype columns that give the call only.
\<close>

definition ex_line_xx :: "string list" where
  "ex_line_xx = [''chr1'', ''100'', ''rs1'', ''A'', ''G'', ''50'', ''PASS'', ''AF=0.5;DB'',
                 ''GT:XX'', ''0/1'', ''0/0'']"

definition ex_variant_xx :: Variant where
  "ex_variant_xx = ex_variant\<lparr>active_formats := {''GT'', ''XX''}, active_format_list := [''GT''],
                                format_string := Some ''GT:XX'',
                                gts_string := Some (''0/1'' @ [tab] @ ''0/0'')\<rparr>"

text \<open>
  One part of the INFO column: its key is the text before the first \<open>=\<close>, its value the
  text between the first and the second \<open>=\<close> (or up to the end, when there is one \<open>=\<close>).
  \<open>info_store\<close> is what one pass of the constructor's loop does to the mapping, in
  these terms.
\<close>

definition part_key :: "string \<Rightarrow> string" where
  "part_key p = takeWhile (\<lambda>c. c \<noteq> CHR ''='') p"

definition part_value :: "string \<Rightarrow> string" where
  "part_value p = takeWhile (\<lambda>c. c \<noteq> CHR ''='') (drop (Suc (length (part_key p))) p)"

definition info_store :: "string \<Rightarrow> (string \<rightharpoonup> pyval) \<Rightarrow> (string \<rightharpoonup> pyval)" where
  "info_store p m =
     m(part_key p \<mapsto> (if CHR ''='' \<in> set p then PStr (part_value p) else PBool True))"

text \<open>The example with an INFO part that has two \<open>=\<close>.\<close>

definition ex_line_eq :: "string list" where
  "ex_line_eq = [''chr1'', ''100'', ''rs1'', ''A'', ''G'', ''50'', ''PASS'', ''AF=0.5=x;DB'',
                 ''GT:DP'', ''0/1:30'', ''0/0:25'']"

text \<open>The example with the two INFO declarations of the header in the other order.\<close>

definition ex_vcf_rev :: Vcf where
  "ex_vcf_rev = ex_vcf\<lparr>vcf_info_list := [\<lparr>id_i = ''DB'', type_i = ''Flag''\<rparr>,
                                           \<lparr>id_i = ''AF'', type_i = ''Float''\<rparr>]\<rparr>"

definition ex_variant_rev :: Variant where
  "ex_variant_rev = ex_variant\<lparr>info_list := [\<lparr>id_i = ''DB'', type_i = ''Flag''\<rparr>,
                                              \<lparr>id_i = ''AF'', type_i = ''Float''\<rparr>]\<rparr>"

text \<open>
  An INFO column in the header's form: the declared ids differ from each other, the keys
  of the parts are declared ids in the header's order (each once), a part of a Flag
  field has no \<open>=\<close>, and a part of any other field has exactly one.
\<close>

definition info_in_header_form :: "Vcf \<Rightarrow> string \<Rightarrow> bool" where
  "info_in_header_form vcf s =
     (distinct (map id_i (vcf_info_list vcf))
      \<and> map part_key (py_split (CHR '';'') s)
           = filter (\<lambda>k. k \<in> part_key ` set (py_split (CHR '';'') s)) (map id_i (vcf_info_list vcf))
      \<and> (\<forall>f\<in>set (vcf_info_list vcf). \<forall>p\<in>set (py_split (CHR '';'') s).
            part_key p = id_i f \<longrightarrow>
              (if type_i f = ''Flag'' then CHR ''='' \<notin> set p
               else count_list p (CHR ''='') = 1)))"

section \<open>Splitting and joining\<close>

lemma py_split_nonempty: "py_split c s \<noteq> []"
  by (induction s) (auto split: list.splits)

lemma py_join_split: "py_join [c] (py_split c s) = s"
proof (induction s)
  case Nil
  show ?case by simp
next
  case (Cons x xs)
  obtain y ys where e: "py_split c xs = y # ys"
    using py_split_nonempty [of c xs] by (cases "py_split c xs") auto
  show ?case using Cons e by (cases ys) auto
qed

lemma py_split_no_sep: "x \<in> set (py_split c s) \<Longrightarrow> c \<notin> set x"
  by (induction s arbitrary: x) (auto split: if_splits list.splits)

lemma py_split_plain: "c \<notin> set x \<Longrightarrow> py_split c x = [x]"
  by (induction x) auto

lemma py_split_append: "c \<notin> set x \<Longrightarrow> py_split c (x @ c # s) = x # py_split c s"
  by (induction x) auto

lemma py_split_join:
  "xs \<noteq> [] \<Longrightarrow> \<forall>x\<in>set xs. c \<notin> set x \<Longrightarrow> py_split c (py_join [c] xs) = xs"
proof (induction "[c]" xs rule: py_join.induct)
  case 1
  then show ?case by simp
next
  case (2 x)
  then show ?case by (simp add: py_split_plain)
next
  case (3 x y ys)
  then show ?case by (simp add: py_split_append)
qed

section \<open>The example record\<close>

lemma py_int_100: "py_int ''100'' = Some 100"
  by (simp add: py_int_def strip_def is_space_def parse_number_def digit_val_def)

lemma Variant_init_example: "Variant_init ex_line ex_vcf = Inr ex_variant"
  by (simp add: Variant_init_def ex_line_def ex_vcf_def ex_variant_def py_int_100
      update_active_format_list_def)

section \<open>The loops as list functions\<close>

lemma format_loop_filter:
  "format_loop active fs acc = acc @ filter (\<lambda>i. i \<in> active) (map id_f fs)"
  by (induction fs arbitrary: acc) auto

lemma info_string_loop_spec:
  "info_string_loop m fs acc = acc @ map (info_text m) (filter (info_emitted m) fs)"
  by (induction fs arbitrary: acc) (auto simp: info_text_def info_emitted_def split: option.splits)

section \<open>When the constructor succeeds\<close>

lemma py_int_x: "py_int ''x'' = None"
  by (simp add: py_int_def strip_def is_space_def parse_number_def digit_val_def)

lemma info_loop_split: "\<exists>m'. info_loop (map (py_split c) ps) m = Inr m'"
proof (induction ps arbitrary: m)
  case Nil
  show ?case by simp
next
  case (Cons p ps)
  show ?case
  proof (cases "py_split c p")
    case Nil
    then show ?thesis using py_split_nonempty [of c p] by simp
  next
    case (Cons k r)
    with Cons.IH show ?thesis by (cases r) auto
  qed
qed

lemma Variant_init_succeeds_iff:
  "(\<exists>v. Variant_init vl vcf = Inr v) \<longleftrightarrow> 9 \<le> length vl \<and> py_int (vl ! 1) \<noteq> None"
proof -
  obtain m where "info_loop (map (py_split (CHR ''='')) (py_split (CHR '';'') (vl ! 7))) Map.empty = Inr m"
    using info_loop_split by blast
  then show ?thesis
    by (auto simp: Variant_init_def Let_def split: option.splits)
qed

text \<open>
  Which inputs the constructor rejects, and how: the exit with the message about 8
  columns is reached with exactly 7 columns and a numeric position only.
\<close>

lemma Variant_init_fails:
  "length vl < 8 \<or> py_int (vl ! 1) = None \<Longrightarrow> \<exists>e. Variant_init vl vcf = Inl e"
  using Variant_init_succeeds_iff [of vl vcf]
  by (cases "Variant_init vl vcf") auto

lemma Variant_init_exit_iff:
  "Variant_init vl vcf = Inl ExitTooFewColumns \<longleftrightarrow> length vl = 7 \<and> py_int (vl ! 1) \<noteq> None"
proof -
  obtain m where "info_loop (map (py_split (CHR ''='')) (py_split (CHR '';'') (vl ! 7))) Map.empty = Inr m"
    using info_loop_split by blast
  then show ?thesis
    by (auto simp: Variant_init_def Let_def split: option.splits)
qed

lemma Variant_init_raw:
  assumes "Variant_init vl vcf = Inr v"
  shows "gts v = None \<and> format_string v = Some (vl ! 8)
       \<and> gts_string v = Some (py_join [tab] (drop 9 vl))
       \<and> active_formats v = set (py_split (CHR '':'') (vl ! 8))
       \<and> active_format_list v = filter (\<lambda>i. i \<in> active_formats v) (map id_f (format_list v))
       \<and> format_list v = vcf_format_list vcf \<and> info_list v = vcf_info_list vcf
       \<and> sample_list v = vcf_sample_list vcf
       \<and> chrom v = vl ! 0 \<and> py_int (vl ! 1) = Some (pos v) \<and> var_id v = vl ! 2 \<and> ref v = vl ! 3
       \<and> alt v = vl ! 4 \<and> qual v = vl ! 5 \<and> filter_v v = vl ! 6 \<and> 9 \<le> length vl"
proof -
  from assms have len: "9 \<le> length vl" and "py_int (vl ! 1) \<noteq> None"
    using Variant_init_succeeds_iff [of vl vcf] by blast+
  then obtain p where p: "py_int (vl ! Suc 0) = Some p"
    by auto
  obtain m where m:
    "info_loop (map (py_split (CHR ''='')) (py_split (CHR '';'') (vl ! 7))) Map.empty = Inr m"
    using info_loop_split by blast
  from len have l: "\<not> length vl < 2" "\<not> length vl < 7" "\<not> length vl < 8" "\<not> length vl < 9"
    by simp_all
  show ?thesis
    using assms
    by (simp add: Variant_init_def Let_def update_active_format_list_def format_loop_filter p m l len)
       auto
qed

section \<open>Printing an integer and reading it back\<close>

lemma digit_val_digit_char: "d < 10 \<Longrightarrow> digit_val (digit_char d) = Some d"
proof -
  assume "d < 10"
  then consider "d = 0" | "d = 1" | "d = 2" | "d = 3" | "d = 4" | "d = 5" | "d = 6" | "d = 7"
    | "d = 8" | "d = 9"
    by atomize_elim arith
  then show ?thesis
    by cases (simp_all add: digit_val_def digit_char_def)
qed

lemma digit_val_not_underscore: "digit_val c = Some d \<Longrightarrow> c \<noteq> CHR ''_''"
  by (auto simp: digit_val_def)

lemma parse_digits_snoc:
  "\<forall>x\<in>set ds. digit_val x \<noteq> None \<Longrightarrow> digit_val c = Some d \<Longrightarrow>
     parse_digits acc (ds @ [c]) = map_option (\<lambda>a. 10 * a + d) (parse_digits acc ds)"
proof (induction acc ds rule: parse_digits.induct)
  case (1 acc)
  then show ?case by simp
next
  case (2 acc x)
  then obtain v where v: "digit_val x = Some v" by auto
  with 2 show ?case using digit_val_not_underscore [OF v] by simp
next
  case (3 acc x y zs)
  then obtain v where v: "digit_val x = Some v" by auto
  have nu: "x \<noteq> CHR ''_''" by (rule digit_val_not_underscore [OF v])
  have "parse_digits (10 * acc + v) ((y # zs) @ [c])
          = map_option (\<lambda>a. 10 * a + d) (parse_digits (10 * acc + v) (y # zs))"
    using 3 nu v by auto
  then show ?case using nu v by simp
qed

lemma str_nat_digits: "\<forall>x\<in>set (str_nat n). digit_val x \<noteq> None"
proof (induction n rule: str_nat.induct)
  case (1 n)
  show ?case
  proof (cases "n < 10")
    case True
    then show ?thesis
      using digit_val_digit_char [of n] by (subst str_nat.simps) simp
  next
    case False
    have "digit_val (digit_char (n mod 10)) = Some (n mod 10)"
      by (rule digit_val_digit_char) simp
    with False 1 show ?thesis
      by (subst str_nat.simps) auto
  qed
qed

lemma str_nat_nonempty: "str_nat n \<noteq> []"
  by (subst str_nat.simps) simp

lemma parse_number_snoc:
  assumes "xs \<noteq> []" and "\<forall>x\<in>set xs. digit_val x \<noteq> None" and "digit_val c = Some d"
  shows "parse_number (xs @ [c]) = map_option (\<lambda>a. 10 * a + d) (parse_number xs)"
proof -
  obtain x r where xs: "xs = x # r" using assms(1) by (cases xs) auto
  with assms(2) obtain v where v: "digit_val x = Some v" by auto
  show ?thesis
    using assms(2,3) parse_digits_snoc [of r c d v] by (simp add: parse_number_def xs v)
qed

lemma parse_number_str_nat: "parse_number (str_nat n) = Some n"
proof (induction n rule: str_nat.induct)
  case (1 n)
  show ?case
  proof (cases "n < 10")
    case True
    then show ?thesis
      using digit_val_digit_char [of n]
      by (subst str_nat.simps) (simp add: parse_number_def)
  next
    case False
    have d: "digit_val (digit_char (n mod 10)) = Some (n mod 10)"
      by (rule digit_val_digit_char) simp
    have "parse_number (str_nat (n div 10) @ [digit_char (n mod 10)])
            = map_option (\<lambda>a. 10 * a + n mod 10) (parse_number (str_nat (n div 10)))"
      by (rule parse_number_snoc [OF str_nat_nonempty str_nat_digits d])
    with False 1 show ?thesis
      by (subst str_nat.simps) simp
  qed
qed

lemma digit_not_space: "digit_val c \<noteq> None \<Longrightarrow> \<not> is_space c"
  by (auto simp: digit_val_def is_space_def split: if_splits)

lemma strip_id:
  assumes "s \<noteq> []" and "\<not> is_space (hd s)" and "\<not> is_space (last s)"
  shows "strip s = s"
proof -
  have "dropWhile is_space s = s"
    using assms(1,2) by (cases s) auto
  moreover have "dropWhile is_space (rev s) = rev s"
    using assms(1,3) by (cases "rev s") (auto simp: last_rev [symmetric] simp del: last_rev)
  ultimately show ?thesis by (simp add: strip_def)
qed

lemma py_int_str_int: "py_int (str_int i) = Some i"
proof -
  let ?n = "if i < 0 then nat (- i) else nat i"
  let ?s = "str_nat ?n"
  obtain c cs where s: "?s = c # cs"
    using str_nat_nonempty [of ?n] by (cases ?s) auto
  have dig: "\<forall>x\<in>set ?s. digit_val x \<noteq> None" by (rule str_nat_digits)
  then have c: "digit_val c \<noteq> None" using s by simp
  have l: "digit_val (last ?s) \<noteq> None"
    using dig str_nat_nonempty [of ?n] last_in_set by blast
  have cm: "c \<noteq> CHR ''-''" "c \<noteq> CHR ''+''"
    using c by (auto simp: digit_val_def)
  have hs: "\<not> is_space c" using c by (rule digit_not_space)
  have ls: "\<not> is_space (last ?s)" using l by (rule digit_not_space)
  have pn: "parse_number ?s = Some ?n" by (rule parse_number_str_nat)
  show ?thesis
  proof (cases "i < 0")
    case True
    then have e: "str_int i = CHR ''-'' # c # cs"
      using s by (simp add: str_int_def)
    have "\<not> is_space (CHR ''-'')" by (simp add: is_space_def)
    moreover have "last (CHR ''-'' # c # cs) = last ?s" using s by simp
    ultimately have "strip (str_int i) = str_int i"
      unfolding e using ls by (intro strip_id) simp_all
    then show ?thesis using True pn s by (simp add: py_int_def e)
  next
    case False
    then have e: "str_int i = c # cs"
      using s by (simp add: str_int_def)
    have "last (c # cs) = last ?s" using s by simp
    then have "strip (str_int i) = str_int i"
      unfolding e using ls hs by (intro strip_id) simp_all
    then show ?thesis using False pn cm s by (simp add: py_int_def e)
  qed
qed

section \<open>The active FORMAT order\<close>

text \<open>
  Claim C7. After \<open>update_active_format_list\<close> the active format order is the header's
  declared FORMAT order filtered to the active format ids, and the set of active ids is
  as before. So a tag of the active set that the header does not declare stays in the
  set and is not in the derived order; the FORMAT string resynthesized in the parsed
  state is that order joined by \<open>:\<close>, so the tag is not among the joined tags.
\<close>

theorem update_active_format_list_order:
  "active_format_list (update_active_format_list v)
     = filter (\<lambda>i. i \<in> active_formats v) (map id_f (format_list v))
   \<and> active_formats (update_active_format_list v) = active_formats v
   \<and> (\<forall>t. t \<in> active_formats v \<and> t \<notin> set (map id_f (format_list v)) \<longrightarrow>
          t \<in> active_formats (update_active_format_list v)
        \<and> t \<notin> set (active_format_list (update_active_format_list v)))
   \<and> (format_string v = None \<longrightarrow>
        get_format_string (update_active_format_list v)
          = py_join '':'' (active_format_list (update_active_format_list v)))"
  by (auto simp: update_active_format_list_def format_loop_filter get_format_string_def)

theorem update_active_format_list_order_witness:
  "''XX'' \<in> active_formats (ex_variant\<lparr>active_formats := {''DP'', ''XX''}, format_string := None\<rparr>)
   \<and> ''XX'' \<notin> set (map id_f (format_list
         (ex_variant\<lparr>active_formats := {''DP'', ''XX''}, format_string := None\<rparr>)))
   \<and> active_format_list (update_active_format_list
         (ex_variant\<lparr>active_formats := {''DP'', ''XX''}, format_string := None\<rparr>)) = [''DP'']
   \<and> active_formats (update_active_format_list
         (ex_variant\<lparr>active_formats := {''DP'', ''XX''}, format_string := None\<rparr>)) = {''DP'', ''XX''}
   \<and> get_format_string (update_active_format_list
         (ex_variant\<lparr>active_formats := {''DP'', ''XX''}, format_string := None\<rparr>)) = ''DP''"
  using update_active_format_list_order
    [of "ex_variant\<lparr>active_formats := {''DP'', ''XX''}, format_string := None\<rparr>"]
  by (simp add: ex_variant_def)

section \<open>Writing an INFO field\<close>

text \<open>
  Claim C6. \<open>set_info\<close> with a field id that is not among the header's declared INFO ids
  fails (the exit after the message "invalid INFO field") and leaves the record, and so
  its info mapping, unchanged. With a declared id it succeeds and stores the value under
  that id, overwriting or inserting, and changes no other key.
\<close>

theorem set_info_declared_only:
  "(field \<notin> set (map id_i (info_list v)) \<longrightarrow>
      set_info field val v = (Inl (ExitInvalidInfoField field), v))
   \<and> (field \<in> set (map id_i (info_list v)) \<longrightarrow>
      set_info field val v = (Inr (), v\<lparr>info := (info v)(field \<mapsto> val)\<rparr>)
      \<and> info (snd (set_info field val v)) field = Some val
      \<and> (\<forall>k. k \<noteq> field \<longrightarrow> info (snd (set_info field val v)) k = info v k))"
  by (simp add: set_info_def)

theorem set_info_declared_only_witness:
  "''XX'' \<notin> set (map id_i (info_list ex_variant))
   \<and> set_info ''XX'' (PStr ''1'') ex_variant = (Inl (ExitInvalidInfoField ''XX''), ex_variant)
   \<and> ''AF'' \<in> set (map id_i (info_list ex_variant))
   \<and> fst (set_info ''AF'' (PStr ''0.25'') ex_variant) = Inr ()
   \<and> info (snd (set_info ''AF'' (PStr ''0.25'') ex_variant)) ''AF'' = Some (PStr ''0.25'')
   \<and> info (snd (set_info ''AF'' (PStr ''0.25'') ex_variant)) ''DB'' = Some (PBool True)"
  using set_info_declared_only [of "''XX''" ex_variant "PStr ''1''"]
    set_info_declared_only [of "''AF''" ex_variant "PStr ''0.25''"]
  by (simp add: ex_variant_def)

section \<open>The INFO string\<close>

text \<open>
  Claim C4. For every record and every state of its info mapping, \<open>get_info_string\<close> is
  the string the specification describes (\<open>info_string_spec\<close>): the declared INFO fields
  present in the mapping, in the header's order, joined by \<open>;\<close>, a Flag field as its bare
  id when its value is true and left out when it is false, any other field as
  \<open>id=value\<close>. The order in which two keys were stored does not matter.
\<close>

theorem get_info_string_header_order:
  "get_info_string v = info_string_spec (info v) (info_list v)
   \<and> (a \<noteq> b \<longrightarrow>
        get_info_string (v\<lparr>info := (info v)(a \<mapsto> x, b \<mapsto> y)\<rparr>)
          = get_info_string (v\<lparr>info := (info v)(b \<mapsto> y, a \<mapsto> x)\<rparr>))"
  by (auto simp: get_info_string_def info_string_spec_def info_string_loop_spec fun_upd_twist)

theorem get_info_string_header_order_witness:
  "get_info_string ex_variant = ''AF=0.5;DB''
   \<and> info_string_spec (info ex_variant) (info_list ex_variant) = ''AF=0.5;DB''
   \<and> get_info_string
        (ex_variant\<lparr>info := (info ex_variant)(''DB'' \<mapsto> PBool False, ''AF'' \<mapsto> PStr ''1'')\<rparr>) = ''AF=1''
   \<and> get_info_string
        (ex_variant\<lparr>info := (info ex_variant)(''AF'' \<mapsto> PStr ''1'', ''DB'' \<mapsto> PBool False)\<rparr>) = ''AF=1''"
  using get_info_string_header_order [of ex_variant "''DB''" "''AF''" "PBool False" "PStr ''1''"]
  by (simp add: ex_variant_def get_info_string_def)

section \<open>Eight columns\<close>

text \<open>
  Claim C9, as amended. An input of exactly 8 columns passes the test on the number of
  columns and then fails: with an out-of-range column access (\<open>IndexError\<close>, at
  \<open>var_list[8]\<close>) when its position column is numeric, and before that with the
  \<open>ValueError\<close> of \<open>int\<close> when it is not. Construction succeeds only when at least 9
  columns are present.
\<close>

theorem Variant_init_eight_columns:
  "(length vl = 8 \<longrightarrow>
      Variant_init vl vcf = Inl (if py_int (vl ! 1) = None then ValueError else IndexError))
   \<and> ((\<exists>v. Variant_init vl vcf = Inr v) \<longrightarrow> 9 \<le> length vl)"
  using Variant_init_succeeds_iff [of vl vcf]
  by (auto simp: Variant_init_def split: option.splits)

theorem Variant_init_eight_columns_witness:
  "length ex_line8 = 8 \<and> py_int (ex_line8 ! 1) = Some 100 \<and> Variant_init ex_line8 ex_vcf = Inl IndexError
   \<and> Variant_init ex_line ex_vcf = Inr ex_variant \<and> 9 \<le> length ex_line"
  using Variant_init_eight_columns [of ex_line8 ex_vcf] Variant_init_eight_columns [of ex_line ex_vcf]
  by (simp add: ex_line8_def py_int_100 Variant_init_example)

theorem Variant_init_eight_columns_counterexample:
  "length ex_line8_x = 8 \<and> Variant_init ex_line8_x ex_vcf = Inl ValueError
   \<and> Variant_init ex_line8_x ex_vcf \<noteq> Inl IndexError"
  by (simp add: ex_line8_x_def Variant_init_def py_int_x)

text \<open>
  Claim C5 at the input the constructor gets wrong: 8 columns (not fewer than 8) with
  the numeric position \<open>100\<close>, where the claim has construction succeed. The
  constructor raises \<open>IndexError\<close> reading the ninth column.
\<close>

theorem Variant_init_rejects_eight_columns:
  "\<not> length ex_line8 < 8 \<and> py_int (ex_line8 ! 1) = Some 100
   \<and> Variant_init ex_line8 ex_vcf = Inl IndexError"
  by (simp add: ex_line8_def Variant_init_def py_int_100)

section \<open>Parsing the genotype columns\<close>

lemma parse_sample_ok: "\<exists>x. parse_sample tags s = Inr x"
  using py_split_nonempty [of "CHR '':''" s]
  by (cases "py_split (CHR '':'') s") (auto simp: parse_sample_def)

lemma parse_loop_ok:
  "i + length arr \<le> length samples \<Longrightarrow>
     \<exists>g'. parse_loop samples tags i arr g = Inr g'
        \<and> dom g' = dom g \<union> set (take (length arr) (drop i samples))"
proof (induction arr arbitrary: i g)
  case Nil
  show ?case by simp
next
  case (Cons s arr)
  obtain x where x: "parse_sample tags s = Inr x"
    using parse_sample_ok by blast
  from Cons.prems have i: "i < length samples" and le: "Suc i + length arr \<le> length samples"
    by simp_all
  obtain g' where g': "parse_loop samples tags (Suc i) arr (g(samples ! i \<mapsto> x)) = Inr g'"
    and d: "dom g' = dom (g(samples ! i \<mapsto> x)) \<union> set (take (length arr) (drop (Suc i) samples))"
    using Cons.IH [OF le] by blast
  have "take (Suc (length arr)) (drop i samples)
          = samples ! i # take (length arr) (drop (Suc i) samples)"
    using i by (simp add: Cons_nth_drop_Suc [symmetric])
  with x i g' d show ?case by auto
qed

text \<open>
  With fewer genotype columns than samples the parsed mapping has the first samples
  only, and a declared sample that is not among them has no genotype: the access exits.
\<close>

lemma genotype_absent_sample:
  assumes "gts v = None" and "format_string v = Some fs" and "gts_string v = Some gs"
    and "length (py_split tab gs) \<le> length (sample_list v)"
    and "s \<notin> set (take (length (py_split tab gs)) (sample_list v))"
  shows "fst (genotype s v) = Inl (ExitInvalidSampleName s)"
proof -
  obtain g where p: "parse_genotypes v (py_split (CHR '':'') fs) (py_split tab gs) = Inr g"
    and d: "dom g = set (take (length (py_split tab gs)) (sample_list v))"
    using parse_loop_ok [of 0 "py_split tab gs" "sample_list v" "py_split (CHR '':'') fs" Map.empty]
      assms(4)
    by (auto simp: parse_genotypes_def)
  from d assms(5) have "g s = None" by auto
  with assms(1-3) p show ?thesis by (simp add: genotype_def)
qed

text \<open>
  Claim C3 at an input the code gets wrong: two declared samples and one genotype
  column. The loop of \<open>_parse_genotypes\<close> runs over the columns, not over the samples,
  so the parsed mapping has the key \<open>S1\<close> only, and \<open>genotype('S2')\<close> ends in the exit for an
  invalid sample name, where the claim has a missing-call genotype \<open>./.\<close> for \<open>S2\<close>.
\<close>

theorem genotype_missing_sample_exits:
  "Variant_init ex_line10 ex_vcf = Inr (ex_variant\<lparr>gts_string := Some ''0/1:30''\<rparr>)
   \<and> length (drop 9 ex_line10) < length (vcf_sample_list ex_vcf)
   \<and> ''S2'' \<in> set (vcf_sample_list ex_vcf)
   \<and> fst (genotype ''S2'' (ex_variant\<lparr>gts_string := Some ''0/1:30''\<rparr>))
       = Inl (ExitInvalidSampleName ''S2'')
   \<and> gts (snd (genotype ''S2'' (ex_variant\<lparr>gts_string := Some ''0/1:30''\<rparr>)))
       = Some [''S1'' \<mapsto> \<lparr>call = ''0/1'', sub_fields = [(''GT'', ''0/1''), (''DP'', ''30'')]\<rparr>]"
  by (simp add: ex_line10_def Variant_init_def py_int_100 ex_vcf_def ex_variant_def
      update_active_format_list_def genotype_def parse_genotypes_def parse_sample_def
      set_formats_def Genotype_init_def)

lemma genotype_parsed:
  "gts v = Some g \<Longrightarrow> genotype n v =
     (case g n of None \<Rightarrow> Inl (ExitInvalidSampleName n) | Some x \<Rightarrow> Inr x, v)"
  by (simp add: genotype_def split: option.splits)

lemma gt_loop_ok:
  "gts v = Some g \<Longrightarrow> set ss \<subseteq> dom g \<Longrightarrow>
     gt_loop render ss v = (Inr (map (\<lambda>n. render (the (g n))) ss), v)"
  by (induction ss) (auto simp: genotype_parsed)

lemma genotype_example:
  "genotype ''S1'' ex_variant =
     (Inr \<lparr>call = ''0/1'', sub_fields = [(''GT'', ''0/1''), (''DP'', ''30'')]\<rparr>,
      ex_variant\<lparr>gts := Some [''S1'' \<mapsto> \<lparr>call = ''0/1'', sub_fields = [(''GT'', ''0/1''), (''DP'', ''30'')]\<rparr>,
                            ''S2'' \<mapsto> \<lparr>call = ''0/0'', sub_fields = [(''GT'', ''0/0''), (''DP'', ''25'')]\<rparr>],
                 format_string := None\<rparr>)"
  by (simp add: ex_variant_def genotype_def parse_genotypes_def parse_sample_def
      set_formats_def Genotype_init_def)

text \<open>
  Claim C2, as amended. For every record in the raw state whose cached genotype string
  has at most as many columns as the header has samples, the first access to a genotype
  parses the columns, stores the mapping (which has a key, so the genotype state is
  parsed) and sets the cached FORMAT string to \<open>None\<close>; the cached genotype-columns
  string is kept. Afterwards \<open>get_gt_string\<close> with \<open>use_cached_gt_string\<close> returns that
  kept string, and without it (the default) resynthesizes the columns from the parsed
  genotypes, in the header's sample order, when every sample has a column.
\<close>

theorem genotype_first_access:
  assumes "gts v = None" and "format_string v = Some fs" and "gts_string v = Some gs"
    and "length (py_split tab gs) \<le> length (sample_list v)"
  shows "\<exists>g. parse_genotypes v (py_split (CHR '':'') fs) (py_split tab gs) = Inr g
      \<and> dom g = set (take (length (py_split tab gs)) (sample_list v))
      \<and> snd (genotype s v) = v\<lparr>gts := Some g, format_string := None\<rparr>
      \<and> gts_true (snd (genotype s v))
      \<and> format_string (snd (genotype s v)) = None
      \<and> gts_string (snd (genotype s v)) = Some gs
      \<and> get_gt_string render True (snd (genotype s v)) = (Inr (Some gs), snd (genotype s v))
      \<and> (length (py_split tab gs) = length (sample_list v) \<longrightarrow>
           get_gt_string render False (snd (genotype s v))
             = (Inr (Some (py_join [tab] (map (\<lambda>n. render (the (g n))) (sample_list v)))),
                snd (genotype s v)))"
proof -
  let ?arr = "py_split tab gs"
  obtain g where p: "parse_genotypes v (py_split (CHR '':'') fs) ?arr = Inr g"
    and d: "dom g = set (take (length ?arr) (sample_list v))"
    using parse_loop_ok [of 0 ?arr "sample_list v" "py_split (CHR '':'') fs" Map.empty] assms(4)
    by (auto simp: parse_genotypes_def)
  let ?v = "v\<lparr>gts := Some g, format_string := None\<rparr>"
  have v': "snd (genotype s v) = ?v"
    using assms(1-3) p by (simp add: genotype_def split: option.splits)
  have "?arr \<noteq> []" by (rule py_split_nonempty)
  then have "take (length ?arr) (sample_list v) \<noteq> []"
    using assms(4) by (cases ?arr; cases "sample_list v") auto
  then have ne: "g \<noteq> Map.empty" using d by auto
  then have t: "gts_true ?v" by (simp add: gts_true_def)
  have c: "get_gt_string render True ?v = (Inr (Some gs), ?v)"
    using t assms(3) by (simp add: get_gt_string_def)
  have r: "get_gt_string render False ?v
         = (Inr (Some (py_join [tab] (map (\<lambda>n. render (the (g n))) (sample_list v)))), ?v)"
    if "length ?arr = length (sample_list v)"
  proof -
    have "set (sample_list ?v) \<subseteq> dom g" using d that by simp
    then have "gt_loop render (sample_list ?v) ?v
        = (Inr (map (\<lambda>n. render (the (g n))) (sample_list ?v)), ?v)"
      by (intro gt_loop_ok) simp_all
    then show ?thesis using t by (simp add: get_gt_string_def)
  qed
  show ?thesis
    using p d v' t c r assms(3) by (intro exI [of _ g]) simp
qed

theorem genotype_first_access_witness:
  "gts ex_variant = None \<and> format_string ex_variant = Some ''GT:DP''
   \<and> gts_string ex_variant = Some (''0/1:30'' @ [tab] @ ''0/0:25'')
   \<and> length (py_split tab (''0/1:30'' @ [tab] @ ''0/0:25'')) = length (sample_list ex_variant)
   \<and> format_string (snd (genotype ''S1'' ex_variant)) = None
   \<and> gts_string (snd (genotype ''S1'' ex_variant)) = Some (''0/1:30'' @ [tab] @ ''0/0:25'')
   \<and> get_gt_string call True (snd (genotype ''S1'' ex_variant))
       = (Inr (Some (''0/1:30'' @ [tab] @ ''0/0:25'')), snd (genotype ''S1'' ex_variant))
   \<and> fst (get_gt_string call False (snd (genotype ''S1'' ex_variant)))
       = Inr (Some (''0/1'' @ [tab] @ ''0/0''))"
proof -
  have h: "gts ex_variant = None" "format_string ex_variant = Some ''GT:DP''"
    "gts_string ex_variant = Some (''0/1:30'' @ [tab] @ ''0/0:25'')"
    "length (py_split tab (''0/1:30'' @ [tab] @ ''0/0:25'')) \<le> length (sample_list ex_variant)"
    by (simp_all add: ex_variant_def)
  have e: "length (py_split tab (''0/1:30'' @ [tab] @ ''0/0:25'')) = length (sample_list ex_variant)"
    by (simp add: ex_variant_def)
  from genotype_first_access [OF h, of "''S1''" call] e
  have "format_string (snd (genotype ''S1'' ex_variant)) = None
    \<and> gts_string (snd (genotype ''S1'' ex_variant)) = Some (''0/1:30'' @ [tab] @ ''0/0:25'')
    \<and> get_gt_string call True (snd (genotype ''S1'' ex_variant))
       = (Inr (Some (''0/1:30'' @ [tab] @ ''0/0:25'')), snd (genotype ''S1'' ex_variant))"
    by auto
  moreover have "fst (get_gt_string call False (snd (genotype ''S1'' ex_variant)))
       = Inr (Some (''0/1'' @ [tab] @ ''0/0''))"
    by (simp add: genotype_example get_gt_string_def gts_true_def)
       (simp add: ex_variant_def genotype_def)
  ultimately show ?thesis using h(1-3) e by simp
qed

text \<open>
  The claim as stated fails on the example record: after \<open>genotype('S1')\<close> the cached
  genotype-columns string is still there, and \<open>get_gt_string(True)\<close> returns it.
\<close>

theorem genotype_first_access_counterexample:
  "gts ex_variant = None
   \<and> gts (snd (genotype ''S1'' ex_variant)) \<noteq> None
   \<and> gts_string (snd (genotype ''S1'' ex_variant)) = gts_string ex_variant
   \<and> gts_string (snd (genotype ''S1'' ex_variant)) \<noteq> None
   \<and> fst (get_gt_string call True (snd (genotype ''S1'' ex_variant))) = Inr (gts_string ex_variant)"
  by (simp add: genotype_example get_gt_string_def gts_true_def) (simp add: ex_variant_def)

section \<open>The FORMAT string before and after the genotypes are parsed\<close>

lemma genotype_transition:
  assumes "gts v = None" and "gts (snd (genotype s v)) \<noteq> None"
  shows "\<exists>g. snd (genotype s v) = v\<lparr>gts := Some g, format_string := None\<rparr>"
proof (cases "format_string v")
  case None
  with assms show ?thesis by (simp add: genotype_def)
next
  case fs: (Some fs)
  show ?thesis
  proof (cases "gts_string v")
    case None
    with assms fs show ?thesis by (simp add: genotype_def)
  next
    case gs: (Some gs)
    show ?thesis
    proof (cases "parse_genotypes v (py_split (CHR '':'') fs) (py_split tab gs)")
      case (Inl e)
      with assms fs gs show ?thesis by (simp add: genotype_def)
    next
      case (Inr g)
      with assms(1) fs gs have "snd (genotype s v) = v\<lparr>gts := Some g, format_string := None\<rparr>"
        by (cases "g s") (simp_all add: genotype_def)
      then show ?thesis by blast
    qed
  qed
qed

lemma Variant_init_example_xx: "Variant_init ex_line_xx ex_vcf = Inr ex_variant_xx"
  by (simp add: Variant_init_def ex_line_xx_def ex_vcf_def ex_variant_def ex_variant_xx_def py_int_100
      update_active_format_list_def)

lemma genotype_example_xx:
  "snd (genotype ''S1'' ex_variant_xx) =
      ex_variant_xx\<lparr>gts := Some [''S1'' \<mapsto> \<lparr>call = ''0/1'', sub_fields = [(''GT'', ''0/1'')]\<rparr>,
                            ''S2'' \<mapsto> \<lparr>call = ''0/0'', sub_fields = [(''GT'', ''0/0'')]\<rparr>],
                 format_string := None\<rparr>"
  by (simp add: ex_variant_xx_def ex_variant_def genotype_def parse_genotypes_def parse_sample_def
      set_formats_def Genotype_init_def)

text \<open>
  Claim C8, as amended. For every record in the raw state, \<open>get_format_string\<close> returns
  the cached FORMAT column verbatim. After the first genotype access has parsed the
  genotypes, the cached FORMAT string is \<open>None\<close>, the active format set is as before,
  and \<open>get_format_string\<close> returns the active format order joined by \<open>:\<close> (for a
  record whose active format order is up to date, as after construction). When the
  active format set is the set of tags of the raw FORMAT column and every one of these
  tags is declared in the header, both strings have the same set of tags.
\<close>

theorem get_format_string_raw_then_parsed:
  assumes "gts v = None" and "format_string v = Some raw"
    and "active_formats v = set (py_split (CHR '':'') raw)"
    and "active_format_list v = filter (\<lambda>i. i \<in> active_formats v) (map id_f (format_list v))"
    and "gts (snd (genotype s v)) \<noteq> None"
  shows "get_format_string v = raw
    \<and> format_string (snd (genotype s v)) = None
    \<and> active_formats (snd (genotype s v)) = active_formats v
    \<and> get_format_string (snd (genotype s v)) = py_join '':'' (active_format_list (snd (genotype s v)))
    \<and> (set (py_split (CHR '':'') raw) \<subseteq> set (map id_f (format_list v)) \<longrightarrow>
         set (py_split (CHR '':'') (get_format_string (snd (genotype s v))))
           = set (py_split (CHR '':'') raw))"
proof -
  obtain g where v': "snd (genotype s v) = v\<lparr>gts := Some g, format_string := None\<rparr>"
    using genotype_transition [OF assms(1) assms(5)] by blast
  let ?tags = "filter (\<lambda>i. i \<in> active_formats v) (map id_f (format_list v))"
  have f: "get_format_string (snd (genotype s v)) = py_join '':'' ?tags"
    by (simp add: v' get_format_string_def format_loop_filter)
  have c: "set (py_split (CHR '':'') (py_join '':'' ?tags)) = set (py_split (CHR '':'') raw)"
    if sub: "set (py_split (CHR '':'') raw) \<subseteq> set (map id_f (format_list v))"
  proof -
    have s: "set ?tags = set (py_split (CHR '':'') raw)"
      using sub assms(3) by auto
    have "py_split (CHR '':'') raw \<noteq> []" by (rule py_split_nonempty)
    then have ne: "?tags \<noteq> []" using s by (metis set_empty)
    have "\<forall>x\<in>set ?tags. CHR '':'' \<notin> set x"
      using s py_split_no_sep by blast
    then have "py_split (CHR '':'') (py_join '':'' ?tags) = ?tags"
      using ne by (intro py_split_join) auto
    then show ?thesis using s by simp
  qed
  show ?thesis
    using assms(2,4) f c by (simp add: v' get_format_string_def)
qed

theorem get_format_string_raw_then_parsed_witness:
  "gts ex_variant = None \<and> format_string ex_variant = Some ''GT:DP''
   \<and> active_formats ex_variant = set (py_split (CHR '':'') ''GT:DP'')
   \<and> active_format_list ex_variant
        = filter (\<lambda>i. i \<in> active_formats ex_variant) (map id_f (format_list ex_variant))
   \<and> gts (snd (genotype ''S1'' ex_variant)) \<noteq> None
   \<and> set (py_split (CHR '':'') ''GT:DP'') \<subseteq> set (map id_f (format_list ex_variant))
   \<and> get_format_string ex_variant = ''GT:DP''
   \<and> get_format_string (snd (genotype ''S1'' ex_variant)) = ''GT:DP''
   \<and> set (py_split (CHR '':'') (get_format_string (snd (genotype ''S1'' ex_variant))))
        = {''GT'', ''DP''}"
proof -
  have h: "gts ex_variant = None" "format_string ex_variant = Some ''GT:DP''"
    "active_formats ex_variant = set (py_split (CHR '':'') ''GT:DP'')"
    "active_format_list ex_variant
        = filter (\<lambda>i. i \<in> active_formats ex_variant) (map id_f (format_list ex_variant))"
    by (simp_all add: ex_variant_def)
  have t: "gts (snd (genotype ''S1'' ex_variant)) \<noteq> None"
    by (simp add: genotype_example)
  have d: "set (py_split (CHR '':'') ''GT:DP'') \<subseteq> set (map id_f (format_list ex_variant))"
    by (simp add: ex_variant_def)
  have l: "active_format_list (snd (genotype ''S1'' ex_variant)) = [''GT'', ''DP'']"
    by (simp add: genotype_example) (simp add: ex_variant_def)
  from get_format_string_raw_then_parsed [OF h t] d l
  have "get_format_string ex_variant = ''GT:DP''
    \<and> get_format_string (snd (genotype ''S1'' ex_variant)) = ''GT:DP''
    \<and> set (py_split (CHR '':'') (get_format_string (snd (genotype ''S1'' ex_variant))))
        = {''GT'', ''DP''}"
    by auto
  then show ?thesis using h t d by simp
qed

text \<open>
  Without the condition on the tags the two strings differ in content: with the FORMAT
  column \<open>GT:XX\<close> and \<open>XX\<close> undeclared, the raw string has the tag \<open>XX\<close> and the
  resynthesized string is \<open>GT\<close>, under the same active format set.
\<close>

theorem get_format_string_raw_then_parsed_counterexample:
  "Variant_init ex_line_xx ex_vcf = Inr ex_variant_xx
   \<and> get_format_string ex_variant_xx = ''GT:XX''
   \<and> gts (snd (genotype ''S1'' ex_variant_xx)) \<noteq> None
   \<and> active_formats (snd (genotype ''S1'' ex_variant_xx)) = active_formats ex_variant_xx
   \<and> get_format_string (snd (genotype ''S1'' ex_variant_xx)) = ''GT''
   \<and> set (py_split (CHR '':'') ''GT'') \<noteq> set (py_split (CHR '':'') ''GT:XX'')"
  by (simp add: Variant_init_example_xx genotype_example_xx)
     (simp add: ex_variant_xx_def ex_variant_def get_format_string_def)

section \<open>Parsing the INFO column\<close>

lemma py_split_hd: "\<exists>r. py_split c s = takeWhile (\<lambda>x. x \<noteq> c) s # r"
  by (induction s) auto

lemma py_split_two:
  "c \<in> set s \<Longrightarrow>
     \<exists>r. py_split c s = takeWhile (\<lambda>x. x \<noteq> c) s
            # takeWhile (\<lambda>x. x \<noteq> c) (drop (Suc (length (takeWhile (\<lambda>x. x \<noteq> c) s))) s) # r"
proof (induction s)
  case Nil
  then show ?case by simp
next
  case (Cons x xs)
  show ?case
  proof (cases "x = c")
    case True
    then show ?thesis using py_split_hd [of c xs] by auto
  next
    case False
    with Cons show ?thesis by auto
  qed
qed

lemma info_loop_step:
  "info_loop (py_split (CHR ''='') p # rest) m = info_loop rest (info_store p m)"
proof (cases "CHR ''='' \<in> set p")
  case True
  then obtain r where "py_split (CHR ''='') p = part_key p # part_value p # r"
    using py_split_two [of "CHR ''=''" p] by (auto simp: part_key_def part_value_def)
  with True show ?thesis by (simp add: info_store_def)
next
  case False
  then have "py_split (CHR ''='') p = [p]" and "part_key p = p"
    by (auto simp: py_split_plain part_key_def)
  with False show ?thesis by (simp add: info_store_def)
qed

lemma info_loop_fold:
  "info_loop (map (py_split (CHR ''='')) ps) m = Inr (fold info_store ps m)"
  by (induction ps arbitrary: m) (simp_all add: info_loop_step del: info_loop.simps(2))

lemma Variant_init_info:
  assumes "Variant_init vl vcf = Inr v"
  shows "info v = fold info_store (py_split (CHR '';'') (vl ! 7)) Map.empty"
proof -
  from assms have len: "9 \<le> length vl" and "py_int (vl ! 1) \<noteq> None"
    using Variant_init_succeeds_iff [of vl vcf] by blast+
  then obtain p where p: "py_int (vl ! Suc 0) = Some p"
    by auto
  from len have l: "\<not> length vl < 2" "\<not> length vl < 7" "\<not> length vl < 8" "\<not> length vl < 9"
    by simp_all
  show ?thesis
    using assms
    by (simp add: Variant_init_def Let_def info_loop_fold p l) auto
qed

lemma fold_info_store_other:
  "\<forall>q\<in>set qs. part_key q \<noteq> k \<Longrightarrow> fold info_store qs m k = m k"
  by (induction qs arbitrary: m) (auto simp: info_store_def)

lemma part_key_no_eq: "CHR ''='' \<notin> set (part_key p)"
  by (auto simp: part_key_def dest: set_takeWhileD)

lemma part_value_no_eq: "CHR ''='' \<notin> set (part_value p)"
  by (auto simp: part_value_def dest: set_takeWhileD)

lemma part_key_subset: "set (part_key p) \<subseteq> set p"
  by (auto simp: part_key_def dest: set_takeWhileD)

lemma part_value_subset: "set (part_value p) \<subseteq> set p"
  by (auto simp: part_value_def dest!: set_takeWhileD in_set_dropD)

lemma fold_info_store_clean:
  assumes "\<forall>p\<in>set ps. CHR '';'' \<notin> set p"
    and "\<forall>k x. m k = Some x \<longrightarrow>
           CHR ''='' \<notin> set k \<and> CHR '';'' \<notin> set k
         \<and> CHR ''='' \<notin> set (py_str x) \<and> CHR '';'' \<notin> set (py_str x)"
  shows "\<forall>k x. fold info_store ps m k = Some x \<longrightarrow>
           CHR ''='' \<notin> set k \<and> CHR '';'' \<notin> set k
         \<and> CHR ''='' \<notin> set (py_str x) \<and> CHR '';'' \<notin> set (py_str x)"
  using assms
proof (induction ps arbitrary: m)
  case Nil
  then show ?case by simp
next
  case (Cons p ps)
  have semi: "CHR '';'' \<notin> set p" using Cons.prems(1) by simp
  have "\<forall>k x. info_store p m k = Some x \<longrightarrow>
           CHR ''='' \<notin> set k \<and> CHR '';'' \<notin> set k
         \<and> CHR ''='' \<notin> set (py_str x) \<and> CHR '';'' \<notin> set (py_str x)"
    using Cons.prems(2) semi part_key_no_eq [of p] part_value_no_eq [of p]
      part_key_subset [of p] part_value_subset [of p]
    by (auto simp: info_store_def split: if_splits)
  with Cons.IH [of "info_store p m"] Cons.prems(1) show ?case by simp
qed

lemma info_text_clean:
  assumes "\<forall>k x. m k = Some x \<longrightarrow>
           CHR ''='' \<notin> set k \<and> CHR '';'' \<notin> set k
         \<and> CHR ''='' \<notin> set (py_str x) \<and> CHR '';'' \<notin> set (py_str x)"
    and "info_emitted m f"
  shows "CHR '';'' \<notin> set (info_text m f) \<and> count_list (info_text m f) (CHR ''='') \<le> 1"
proof -
  from assms(2) obtain x where x: "m (id_i f) = Some x"
    by (auto simp: info_emitted_def)
  with assms(1) have "CHR ''='' \<notin> set (id_i f)" "CHR '';'' \<notin> set (id_i f)"
    "CHR ''='' \<notin> set (py_str x)" "CHR '';'' \<notin> set (py_str x)"
    by blast+
  then show ?thesis using x
    by (simp add: info_text_def count_notin)
qed

lemma get_info_string_parts:
  assumes "Variant_init vl vcf = Inr v" and "p \<in> set (py_split (CHR '';'') (get_info_string v))"
  shows "count_list p (CHR ''='') \<le> 1"
proof -
  let ?items = "map (info_text (info v)) (filter (info_emitted (info v)) (info_list v))"
  have g: "get_info_string v = py_join '';'' ?items"
    by (simp add: get_info_string_def info_string_loop_spec)
  have clean: "\<forall>k x. info v k = Some x \<longrightarrow>
           CHR ''='' \<notin> set k \<and> CHR '';'' \<notin> set k
         \<and> CHR ''='' \<notin> set (py_str x) \<and> CHR '';'' \<notin> set (py_str x)"
    unfolding Variant_init_info [OF assms(1)]
    by (rule fold_info_store_clean) (auto dest: py_split_no_sep)
  have items: "\<forall>i\<in>set ?items. CHR '';'' \<notin> set i \<and> count_list i (CHR ''='') \<le> 1"
    using info_text_clean [OF clean] by auto
  show ?thesis
  proof (cases "?items = []")
    case True
    with assms(2) g show ?thesis by simp
  next
    case False
    then have "py_split (CHR '';'') (py_join '';'' ?items) = ?items"
      using items by (intro py_split_join) auto
    with assms(2) g items show ?thesis by auto
  qed
qed

lemma Variant_init_example_eq: "Variant_init ex_line_eq ex_vcf = Inr ex_variant"
  by (simp add: Variant_init_def ex_line_eq_def ex_vcf_def ex_variant_def py_int_100
      update_active_format_list_def)

text \<open>
  Claim C10. Let \<open>p\<close> be a part of the INFO column of a line the constructor accepts.
  If \<open>p\<close> has two or more \<open>=\<close>, the loop of the constructor, on reaching \<open>p\<close>, stores
  under the key of \<open>p\<close> the text between the first and the second \<open>=\<close> only (and that is
  the final value unless a later part has the same key); key, \<open>=\<close> and stored value do
  not make up \<open>p\<close> again, \<open>p\<close> is not among the parts of the serialized INFO string, and
  the INFO column does not survive the round trip. If \<open>p\<close> has no \<open>=\<close>, it is stored
  with the value \<open>True\<close>.
\<close>

theorem info_part_with_two_equals:
  assumes "Variant_init vl vcf = Inr v" and "py_split (CHR '';'') (vl ! 7) = ps @ p # qs"
  shows "(2 \<le> count_list p (CHR ''='') \<longrightarrow>
            (\<exists>m. info_loop (map (py_split (CHR ''='')) (ps @ [p])) Map.empty = Inr m
                \<and> m (part_key p) = Some (PStr (part_value p)))
          \<and> ((\<forall>q\<in>set qs. part_key q \<noteq> part_key p) \<longrightarrow>
                info v (part_key p) = Some (PStr (part_value p)))
          \<and> part_key p @ ''='' @ part_value p \<noteq> p
          \<and> p \<notin> set (py_split (CHR '';'') (get_info_string v))
          \<and> get_info_string v \<noteq> vl ! 7)
       \<and> (CHR ''='' \<notin> set p \<longrightarrow>
            (\<exists>m. info_loop (map (py_split (CHR ''='')) (ps @ [p])) Map.empty = Inr m
                \<and> m p = Some (PBool True))
          \<and> ((\<forall>q\<in>set qs. part_key q \<noteq> p) \<longrightarrow> info v p = Some (PBool True)))"
proof -
  have st: "\<exists>m. info_loop (map (py_split (CHR ''='')) (ps @ [p])) Map.empty = Inr m
          \<and> m (part_key p) = Some (if CHR ''='' \<in> set p then PStr (part_value p) else PBool True)"
    unfolding info_loop_fold by (simp add: info_store_def)
  have fin: "info v (part_key p)
              = Some (if CHR ''='' \<in> set p then PStr (part_value p) else PBool True)"
    if "\<forall>q\<in>set qs. part_key q \<noteq> part_key p"
    using that by (simp add: Variant_init_info [OF assms(1)] assms(2) fold_info_store_other info_store_def)
  have two: "CHR ''='' \<in> set p \<and> part_key p @ ''='' @ part_value p \<noteq> p
           \<and> p \<notin> set (py_split (CHR '';'') (get_info_string v)) \<and> get_info_string v \<noteq> vl ! 7"
    if c: "2 \<le> count_list p (CHR ''='')"
  proof -
    have m: "CHR ''='' \<in> set p"
    proof (rule ccontr)
      assume "CHR ''='' \<notin> set p"
      then have "count_list p (CHR ''='') = 0" by (rule count_notin)
      with c show False by simp
    qed
    have one: "count_list (part_key p @ ''='' @ part_value p) (CHR ''='') = 1"
      by (simp add: count_notin part_key_no_eq part_value_no_eq)
    have n: "part_key p @ ''='' @ part_value p \<noteq> p"
    proof
      assume "part_key p @ ''='' @ part_value p = p"
      then have "count_list p (CHR ''='')
                   = count_list (part_key p @ ''='' @ part_value p) (CHR ''='')"
        by simp
      with one c show False by simp
    qed
    have o: "p \<notin> set (py_split (CHR '';'') (get_info_string v))"
      using get_info_string_parts [OF assms(1), of p] c by auto
    have "p \<in> set (py_split (CHR '';'') (vl ! 7))"
      by (simp add: assms(2))
    with o have "get_info_string v \<noteq> vl ! 7" by auto
    with m n o show ?thesis by simp
  qed
  have none: "part_key p = p" if "CHR ''='' \<notin> set p"
    using that by (auto simp: part_key_def)
  have A: "(\<exists>m. info_loop (map (py_split (CHR ''='')) (ps @ [p])) Map.empty = Inr m
                \<and> m (part_key p) = Some (PStr (part_value p)))
          \<and> ((\<forall>q\<in>set qs. part_key q \<noteq> part_key p) \<longrightarrow>
                info v (part_key p) = Some (PStr (part_value p)))
          \<and> part_key p @ ''='' @ part_value p \<noteq> p
          \<and> p \<notin> set (py_split (CHR '';'') (get_info_string v))
          \<and> get_info_string v \<noteq> vl ! 7"
    if c: "2 \<le> count_list p (CHR ''='')"
    using st fin two [OF c] by simp
  have B: "(\<exists>m. info_loop (map (py_split (CHR ''='')) (ps @ [p])) Map.empty = Inr m
                \<and> m p = Some (PBool True))
          \<and> ((\<forall>q\<in>set qs. part_key q \<noteq> p) \<longrightarrow> info v p = Some (PBool True))"
    if c: "CHR ''='' \<notin> set p"
    using st fin none [OF c] c by simp
  from A B show ?thesis by blast
qed

theorem info_part_with_two_equals_witness:
  "Variant_init ex_line_eq ex_vcf = Inr ex_variant
   \<and> py_split (CHR '';'') (ex_line_eq ! 7) = [] @ ''AF=0.5=x'' # [''DB'']
   \<and> 2 \<le> count_list ''AF=0.5=x'' (CHR ''='')
   \<and> part_key ''DB'' \<noteq> part_key ''AF=0.5=x''
   \<and> part_key ''AF=0.5=x'' = ''AF'' \<and> part_value ''AF=0.5=x'' = ''0.5''
   \<and> info ex_variant ''AF'' = Some (PStr ''0.5'')
   \<and> ''AF=0.5=x'' \<notin> set (py_split (CHR '';'') (get_info_string ex_variant))
   \<and> get_info_string ex_variant \<noteq> ex_line_eq ! 7
   \<and> py_split (CHR '';'') (ex_line_eq ! 7) = [''AF=0.5=x''] @ ''DB'' # []
   \<and> CHR ''='' \<notin> set ''DB''
   \<and> info ex_variant ''DB'' = Some (PBool True)"
proof -
  have a: "py_split (CHR '';'') (ex_line_eq ! 7) = [] @ ''AF=0.5=x'' # [''DB'']"
    and b: "py_split (CHR '';'') (ex_line_eq ! 7) = [''AF=0.5=x''] @ ''DB'' # []"
    by (simp_all add: ex_line_eq_def)
  have c: "2 \<le> count_list ''AF=0.5=x'' (CHR ''='')" "CHR ''='' \<notin> set ''DB''"
    "part_key ''DB'' \<noteq> part_key ''AF=0.5=x''"
    "part_key ''AF=0.5=x'' = ''AF''" "part_value ''AF=0.5=x'' = ''0.5''"
    by (simp_all add: part_key_def part_value_def)
  from info_part_with_two_equals [OF Variant_init_example_eq a]
    info_part_with_two_equals [OF Variant_init_example_eq b] c
  have "info ex_variant ''AF'' = Some (PStr ''0.5'')
   \<and> ''AF=0.5=x'' \<notin> set (py_split (CHR '';'') (get_info_string ex_variant))
   \<and> get_info_string ex_variant \<noteq> ex_line_eq ! 7
   \<and> info ex_variant ''DB'' = Some (PBool True)"
    by simp
  with a b c Variant_init_example_eq show ?thesis by simp
qed

section \<open>Serializing a record that was not touched\<close>

lemma py_join_snoc_join:
  "ys \<noteq> [] \<Longrightarrow> py_join sep (xs @ [py_join sep ys]) = py_join sep (xs @ ys)"
proof (induction xs)
  case Nil
  then show ?case by simp
next
  case (Cons x xs)
  then have "py_join sep (xs @ [py_join sep ys]) = py_join sep (xs @ ys)"
    by simp
  moreover obtain a as where "xs @ [py_join sep ys] = a # as"
    by (cases "xs @ [py_join sep ys]") auto
  moreover obtain b bs where "xs @ ys = b # bs"
    using Cons.prems by (cases "xs @ ys") auto
  ultimately show ?case by simp
qed

lemma first_eight_columns:
  assumes "8 \<le> length vl"
  shows "[vl ! 0, vl ! 1, vl ! 2, vl ! 3, vl ! 4, vl ! 5, vl ! 6, vl ! 7] @ drop 8 vl = vl"
proof -
  obtain a b c d e f g h r where "vl = a # b # c # d # e # f # g # h # r"
    using assms by (auto simp: eval_nat_numeral Suc_le_length_iff)
  then show ?thesis by simp
qed

lemma get_var_string_raw:
  assumes "Variant_init vl vcf = Inr v" and "10 \<le> length vl"
  shows "get_var_string render cached v =
     (Inr (py_join [tab] ([vl ! 0, str_int (pos v), vl ! 2, vl ! 3, vl ! 4, vl ! 5, vl ! 6,
               get_info_string v] @ drop 8 vl)), v)"
proof -
  note r = Variant_init_raw [OF assms(1)]
  have nt: "\<not> gts_true v" using r by (simp add: gts_true_def)
  have ne: "active_formats v \<noteq> {}"
    using r py_split_nonempty [of "CHR '':''" "vl ! 8"] by simp
  have d8: "drop 8 vl = vl ! 8 # drop 9 vl"
    using assms(2) Cons_nth_drop_Suc [of 8 vl] by simp
  have d9: "drop 9 vl \<noteq> []" using assms(2) by simp
  have "get_var_string render cached v =
     (Inr (py_join [tab] ([vl ! 0, str_int (pos v), vl ! 2, vl ! 3, vl ! 4, vl ! 5, vl ! 6,
               get_info_string v, vl ! 8] @ [py_join [tab] (drop 9 vl)])), v)"
    using r nt ne by (simp add: get_var_string_def get_gt_string_def get_format_string_def)
  also have "py_join [tab] ([vl ! 0, str_int (pos v), vl ! 2, vl ! 3, vl ! 4, vl ! 5, vl ! 6,
               get_info_string v, vl ! 8] @ [py_join [tab] (drop 9 vl)])
     = py_join [tab] ([vl ! 0, str_int (pos v), vl ! 2, vl ! 3, vl ! 4, vl ! 5, vl ! 6,
               get_info_string v, vl ! 8] @ drop 9 vl)"
    by (rule py_join_snoc_join [OF d9])
  finally show ?thesis by (simp add: d8)
qed

lemma str_int_100: "str_int 100 = ''100''"
  by (simp add: str_int_def str_nat.simps digit_char_def)

lemma Variant_init_example_rev: "Variant_init ex_line ex_vcf_rev = Inr ex_variant_rev"
  by (simp add: Variant_init_def ex_line_def ex_vcf_def ex_vcf_rev_def ex_variant_def
      ex_variant_rev_def py_int_100 update_active_format_list_def)

lemma part_decompose:
  assumes "count_list p (CHR ''='') = 1"
  shows "p = part_key p @ ''='' @ part_value p"
proof -
  let ?P = "\<lambda>c. c \<noteq> CHR ''=''"
  have m: "CHR ''='' \<in> set p"
  proof (rule ccontr)
    assume "CHR ''='' \<notin> set p"
    then have "count_list p (CHR ''='') = 0" by (rule count_notin)
    with assms show False by simp
  qed
  then have "dropWhile ?P p \<noteq> []" by simp
  then obtain r where r: "dropWhile ?P p = CHR ''='' # r"
    using hd_dropWhile [of ?P p] by (cases "dropWhile ?P p") auto
  have p: "p = part_key p @ CHR ''='' # r"
    using takeWhile_dropWhile_id [of ?P p] r by (simp add: part_key_def)
  have "count_list (part_key p @ CHR ''='' # r) (CHR ''='') = 1"
    using assms p by simp
  then have "count_list r (CHR ''='') = 0"
    by (simp add: count_notin part_key_no_eq)
  then have "CHR ''='' \<notin> set r"
    by (simp add: count_list_0_iff)
  then have t: "takeWhile ?P r = r" by (auto simp: takeWhile_eq_all_conv)
  have "drop (Suc (length (part_key p))) p = r"
    by (subst p) simp
  then have "part_value p = r" using t by (simp add: part_value_def)
  with p show ?thesis by simp
qed

lemma dom_fold_info_store: "dom (fold info_store ps m) = dom m \<union> part_key ` set ps"
  by (induction ps arbitrary: m) (auto simp: info_store_def)

lemma fold_info_store_distinct:
  "distinct (map part_key ps) \<Longrightarrow> p \<in> set ps \<Longrightarrow>
     fold info_store ps m (part_key p)
       = Some (if CHR ''='' \<in> set p then PStr (part_value p) else PBool True)"
proof (induction ps arbitrary: m)
  case Nil
  then show ?case by simp
next
  case (Cons q qs)
  show ?case
  proof (cases "p = q")
    case True
    have "\<forall>x\<in>set qs. part_key x \<noteq> part_key p"
      using Cons.prems(1) True by (auto simp: image_iff)
    then have "fold info_store qs (info_store q m) (part_key p) = info_store q m (part_key p)"
      by (rule fold_info_store_other)
    then have "fold info_store (q # qs) m (part_key p) = info_store q m (part_key p)"
      by simp
    also have "\<dots> = Some (if CHR ''='' \<in> set p then PStr (part_value p) else PBool True)"
      using True by (simp add: info_store_def)
    finally show ?thesis .
  next
    case False
    with Cons show ?thesis by simp
  qed
qed

lemma get_info_string_round_trip:
  assumes init: "Variant_init vl vcf = Inr v" and form: "info_in_header_form vcf (vl ! 7)"
  shows "get_info_string v = vl ! 7"
proof -
  let ?parts = "py_split (CHR '';'') (vl ! 7)"
  let ?K = "part_key ` set ?parts"
  let ?decl = "vcf_info_list vcf"
  let ?m = "info v"
  have dist: "distinct (map id_i (vcf_info_list vcf))"
    and keys: "map part_key (py_split (CHR '';'') (vl ! 7))
                 = filter (\<lambda>k. k \<in> part_key ` set (py_split (CHR '';'') (vl ! 7)))
                     (map id_i (vcf_info_list vcf))"
    and shape: "\<forall>f\<in>set (vcf_info_list vcf). \<forall>p\<in>set (py_split (CHR '';'') (vl ! 7)).
                  part_key p = id_i f \<longrightarrow>
                    (if type_i f = ''Flag'' then CHR ''='' \<notin> set p
                     else count_list p (CHR ''='') = 1)"
    using form by (simp_all add: info_in_header_form_def)
  have m: "?m = fold info_store ?parts Map.empty"
    by (rule Variant_init_info [OF init])
  have il: "info_list v = ?decl"
    using Variant_init_raw [OF init] by simp
  have dk: "distinct (map part_key ?parts)"
    unfolding keys using dist by (rule distinct_filter)
  have val: "?m (part_key p) = Some (if CHR ''='' \<in> set p then PStr (part_value p) else PBool True)"
    if "p \<in> set ?parts" for p
    unfolding m using dk that by (rule fold_info_store_distinct)
  have dm: "dom ?m = ?K"
    unfolding m by (simp add: dom_fold_info_store)
  have em: "info_emitted ?m f \<longleftrightarrow> id_i f \<in> ?K" if f: "f \<in> set ?decl" for f
  proof (cases "id_i f \<in> ?K")
    case False
    then show ?thesis using dm by (auto simp: info_emitted_def)
  next
    case True
    then obtain p where p: "p \<in> set ?parts" "part_key p = id_i f" by auto
    have "truthy (the (?m (id_i f)))" if "type_i f = ''Flag''"
      using shape f p that val [OF p(1)] by (auto simp: p(2))
    then show ?thesis using True dm by (auto simp: info_emitted_def)
  qed
  let ?fs = "filter (info_emitted ?m) ?decl"
  have fs: "?fs = filter (\<lambda>f. id_i f \<in> ?K) ?decl"
    using em by (intro filter_cong) auto
  have ids: "map id_i ?fs = map part_key ?parts"
    unfolding fs keys by (simp add: filter_map comp_def)
  have len: "length ?fs = length ?parts"
    using ids by (metis length_map)
  have "map (info_text ?m) ?fs = ?parts"
  proof (rule nth_equalityI)
    show "length (map (info_text ?m) ?fs) = length ?parts" using len by simp
  next
    fix j assume "j < length (map (info_text ?m) ?fs)"
    then have j: "j < length ?fs" "j < length ?parts" using len by simp_all
    let ?f = "?fs ! j" and ?p = "?parts ! j"
    have fd: "?f \<in> set ?decl" using j(1) nth_mem [of j ?fs] by auto
    have pp: "?p \<in> set ?parts" using j(2) by simp
    have k: "part_key ?p = id_i ?f"
      using ids j by (metis nth_map)
    have sh: "if type_i ?f = ''Flag'' then CHR ''='' \<notin> set ?p
              else count_list ?p (CHR ''='') = 1"
      using shape fd pp k by blast
    have "info_text ?m ?f = ?p"
    proof (cases "type_i ?f = ''Flag''")
      case True
      with sh have "CHR ''='' \<notin> set ?p" by simp
      then have "part_key ?p = ?p" by (auto simp: part_key_def)
      with True k show ?thesis by (simp add: info_text_def)
    next
      case False
      with sh have c: "count_list ?p (CHR ''='') = 1" by simp
      then have "CHR ''='' \<in> set ?p"
        using count_notin [of "CHR ''=''" ?p] by fastforce
      then have "?m (id_i ?f) = Some (PStr (part_value ?p))"
        using val [OF pp] k by simp
      then show ?thesis
        using False k part_decompose [OF c] by (simp add: info_text_def)
    qed
    then show "map (info_text ?m) ?fs ! j = ?parts ! j" using j by simp
  qed
  then have "get_info_string v = py_join '';'' ?parts"
    by (simp add: get_info_string_def info_string_loop_spec il)
  then show ?thesis by (simp add: py_join_split)
qed

text \<open>
  Claim C1, as amended. A record built from a line of at least 10 columns and serialized
  with no mutation and no genotype access gives the line's columns joined by tabs, with
  the position printed as the decimal numeral of its integer value and the INFO column
  replaced by the INFO string: the other fixed columns, the FORMAT column and the
  genotype columns are the original text. So the serialized line is the input line,
  byte for byte, when the position column is already that numeral and the INFO column
  is already what \<open>get_info_string\<close> gives for the parsed mapping; in particular when
  the position column is what \<open>str\<close> prints for some integer and the INFO column is in
  the header's form (\<open>info_in_header_form\<close>).
\<close>

theorem get_var_string_round_trip:
  assumes "Variant_init vl vcf = Inr v" and "10 \<le> length vl"
  shows "get_var_string render cached v =
          (Inr (py_join [tab] ([vl ! 0, str_int (pos v), vl ! 2, vl ! 3, vl ! 4, vl ! 5, vl ! 6,
               get_info_string v] @ drop 8 vl)), v)
       \<and> (str_int (pos v) = vl ! 1 \<and> get_info_string v = vl ! 7 \<longrightarrow>
            get_var_string render cached v = (Inr (py_join [tab] vl), v))
       \<and> ((\<exists>i. vl ! 1 = str_int i) \<and> info_in_header_form vcf (vl ! 7) \<longrightarrow>
            get_var_string render cached v = (Inr (py_join [tab] vl), v))"
proof -
  have a: "get_var_string render cached v =
          (Inr (py_join [tab] ([vl ! 0, str_int (pos v), vl ! 2, vl ! 3, vl ! 4, vl ! 5, vl ! 6,
               get_info_string v] @ drop 8 vl)), v)"
    by (rule get_var_string_raw [OF assms])
  have b: "get_var_string render cached v = (Inr (py_join [tab] vl), v)"
    if h: "str_int (pos v) = vl ! 1" "get_info_string v = vl ! 7"
  proof -
    have "8 \<le> length vl" using assms(2) by simp
    then have "[vl ! 0, vl ! 1, vl ! 2, vl ! 3, vl ! 4, vl ! 5, vl ! 6, vl ! 7] @ drop 8 vl = vl"
      by (rule first_eight_columns)
    with h have e: "[vl ! 0, str_int (pos v), vl ! 2, vl ! 3, vl ! 4, vl ! 5, vl ! 6,
               get_info_string v] @ drop 8 vl = vl"
      by simp
    show ?thesis unfolding a e by (rule refl)
  qed
  have c: "get_var_string render cached v = (Inr (py_join [tab] vl), v)"
    if h: "\<exists>i. vl ! 1 = str_int i" "info_in_header_form vcf (vl ! 7)"
  proof -
    from h(1) obtain i where i: "vl ! 1 = str_int i" by blast
    have "py_int (vl ! 1) = Some (pos v)"
      using Variant_init_raw [OF assms(1)] by simp
    then have "pos v = i" unfolding i py_int_str_int by simp
    then show ?thesis
      using b i get_info_string_round_trip [OF assms(1) h(2)] by simp
  qed
  from a b c show ?thesis by blast
qed

theorem get_var_string_round_trip_witness:
  "Variant_init ex_line ex_vcf = Inr ex_variant \<and> 10 \<le> length ex_line
   \<and> str_int (pos ex_variant) = ex_line ! 1 \<and> get_info_string ex_variant = ex_line ! 7
   \<and> ex_line ! 1 = str_int 100 \<and> info_in_header_form ex_vcf (ex_line ! 7)
   \<and> get_var_string call False ex_variant = (Inr (py_join [tab] ex_line), ex_variant)"
proof -
  have l: "10 \<le> length ex_line" by (simp add: ex_line_def)
  have p: "str_int (pos ex_variant) = ex_line ! 1"
    by (simp add: ex_variant_def ex_line_def str_int_100)
  have i: "get_info_string ex_variant = ex_line ! 7"
    by (simp add: ex_variant_def ex_line_def get_info_string_def)
  have f: "info_in_header_form ex_vcf (ex_line ! 7)"
    by (simp add: info_in_header_form_def ex_vcf_def ex_line_def part_key_def)
  have n: "ex_line ! 1 = str_int 100"
    by (simp add: ex_line_def str_int_100)
  from get_var_string_round_trip [OF Variant_init_example l, of call False] n f
  have "get_var_string call False ex_variant = (Inr (py_join [tab] ex_line), ex_variant)"
    by blast
  with Variant_init_example l p i n f show ?thesis by blast
qed

text \<open>
  The claim as stated fails when the header declares \<open>DB\<close> before \<open>AF\<close> and the line
  has \<open>AF=0.5;DB\<close>: the INFO string follows the header's order.
\<close>

theorem get_var_string_round_trip_counterexample:
  "Variant_init ex_line ex_vcf_rev = Inr ex_variant_rev
   \<and> gts ex_variant_rev = None
   \<and> fst (get_var_string call False ex_variant_rev)
       = Inr (py_join [tab] [''chr1'', ''100'', ''rs1'', ''A'', ''G'', ''50'', ''PASS'', ''DB;AF=0.5'',
                             ''GT:DP'', ''0/1:30'', ''0/0:25''])
   \<and> fst (get_var_string call False ex_variant_rev) \<noteq> Inr (py_join [tab] ex_line)"
  by (simp add: Variant_init_example_rev)
     (simp add: ex_variant_rev_def ex_variant_def ex_line_def get_var_string_def get_gt_string_def
        gts_true_def get_format_string_def get_info_string_def str_int_100)

end
